theory Spec2Isabelle
  imports Main
begin

section \<open>Values, exceptions and the Python primitives the script uses\<close>

text \<open>
  The script works on the trees a JSON/YAML parser delivers: Python \<open>dict\<close>, \<open>list\<close>,
  \<open>str\<close>, \<open>int\<close>, \<open>bool\<close> and \<open>None\<close>. A dict is an association list in insertion
  order (Python dicts iterate in insertion order, and the order of the produced
  descriptors depends on it); lookup takes the first entry of a key. Numbers are
  integers: a non-integral JSON number has no value in this model.
\<close>

datatype json =
    JNull
  | JBool bool
  | JInt int
  | JStr string
  | JArr "json list"
  | JObj "(string \<times> json) list"

text \<open>
  Exceptions are values. \<open>KeyError\<close> carries the missing key. \<open>LibError\<close> stands for any
  exception (a subclass of \<open>Exception\<close>) raised inside a library call: \<open>requests.request\<close>,
  \<open>response.json()\<close>, the language-model chain. Exceptions outside \<open>Exception\<close>
  (\<open>KeyboardInterrupt\<close>, \<open>SystemExit\<close>) are not modelled.
\<close>

datatype exn =
    KeyError json
  | TypeError
  | AttributeError
  | IndexError
  | LibError string

fun bnd :: "exn + 'a \<Rightarrow> ('a \<Rightarrow> exn + 'b) \<Rightarrow> exn + 'b" where
  "bnd (Inl e) f = Inl e"
| "bnd (Inr x) f = f x"

text \<open>\<open>d[k] = v\<close> on a dict: an existing key keeps its position, a new key goes last.\<close>

fun dict_set :: "string \<Rightarrow> json \<Rightarrow> (string \<times> json) list \<Rightarrow> (string \<times> json) list" where
  "dict_set k v [] = [(k, v)]"
| "dict_set k v ((k', v') # kvs) =
     (if k' = k then (k, v) # kvs else (k', v') # dict_set k v kvs)"

text \<open>\<open>x[k]\<close> with a string key \<open>k\<close>: only a dict can answer; a missing key raises.\<close>

fun py_getitem :: "json \<Rightarrow> string \<Rightarrow> exn + json" where
  "py_getitem (JObj kvs) k =
     (case map_of kvs k of None \<Rightarrow> Inl (KeyError (JStr k)) | Some v \<Rightarrow> Inr v)"
| "py_getitem _ k = Inl TypeError"

text \<open>\<open>x.get(k, d)\<close>: a method of dicts only.\<close>

fun py_get :: "json \<Rightarrow> string \<Rightarrow> json \<Rightarrow> exn + json" where
  "py_get (JObj kvs) k d = (case map_of kvs k of None \<Rightarrow> Inr d | Some v \<Rightarrow> Inr v)"
| "py_get _ k d = Inl AttributeError"

text \<open>\<open>x.items()\<close>: a method of dicts only.\<close>

fun py_items :: "json \<Rightarrow> exn + (string \<times> json) list" where
  "py_items (JObj kvs) = Inr kvs"
| "py_items _ = Inl AttributeError"

text \<open>Truth value of an object in a condition.\<close>

fun py_truthy :: "json \<Rightarrow> bool" where
  "py_truthy JNull = False"
| "py_truthy (JBool b) = b"
| "py_truthy (JInt n) = (n \<noteq> 0)"
| "py_truthy (JStr s) = (s \<noteq> [])"
| "py_truthy (JArr xs) = (xs \<noteq> [])"
| "py_truthy (JObj kvs) = (kvs \<noteq> [])"

text \<open>\<open>s in t\<close> on two strings is the substring test.\<close>

fun starts_with :: "string \<Rightarrow> string \<Rightarrow> bool" where
  "starts_with t [] = True"
| "starts_with [] (c # s) = False"
| "starts_with (d # t) (c # s) = (d = c \<and> starts_with t s)"

fun contains_str :: "string \<Rightarrow> string \<Rightarrow> bool" where
  "contains_str [] s = (s = [])"
| "contains_str (d # t) s = (starts_with (d # t) s \<or> contains_str t s)"

text \<open>
  \<open>k in x\<close> for a string \<open>k\<close>: key membership on a dict, element membership on a list
  (only a string element equals a string), substring on a string; the other values are
  not containers and the test raises.
\<close>

fun py_contains :: "json \<Rightarrow> string \<Rightarrow> exn + bool" where
  "py_contains (JObj kvs) k = Inr (k \<in> set (map fst kvs))"
| "py_contains (JArr xs) k = Inr (JStr k \<in> set xs)"
| "py_contains (JStr s) k = Inr (contains_str s k)"
| "py_contains _ k = Inl TypeError"

text \<open>
  \<open>x[0]\<close>: the first element of a list, the first character of a string (none when
  empty); a dict has no key \<open>0\<close> (its keys are strings); the other values cannot be
  subscripted.
\<close>

fun py_first :: "json \<Rightarrow> exn + json" where
  "py_first (JArr (x # xs)) = Inr x"
| "py_first (JArr []) = Inl IndexError"
| "py_first (JStr (c # s)) = Inr (JStr [c])"
| "py_first (JStr []) = Inl IndexError"
| "py_first (JObj kvs) = Inl (KeyError (JInt 0))"
| "py_first _ = Inl TypeError"

text \<open>\<open>x[k] = v\<close>: only a dict accepts a string key.\<close>

fun py_setitem :: "json \<Rightarrow> string \<Rightarrow> json \<Rightarrow> exn + json" where
  "py_setitem (JObj kvs) k v = Inr (JObj (dict_set k v kvs))"
| "py_setitem _ k v = Inl TypeError"

text \<open>Lowering of one ASCII character: \<open>A\<close> to \<open>Z\<close> become \<open>a\<close> to \<open>z\<close>.\<close>

definition lower_char :: "char \<Rightarrow> char" where
  "lower_char c =
     (if of_char CHR ''A'' \<le> (of_char c :: nat) \<and> (of_char c :: nat) \<le> of_char CHR ''Z''
      then char_of (of_char c + (32 :: nat)) else c)"

text \<open>
  \<open>actual_status == expected_status\<close> with an integer on the left: an integer equals an
  equal integer and the boolean of the same numeric value, nothing else.
\<close>

fun py_int_eq :: "int \<Rightarrow> json \<Rightarrow> bool" where
  "py_int_eq n (JInt m) = (n = m)"
| "py_int_eq n (JBool b) = (n = (if b then 1 else 0))"
| "py_int_eq n _ = False"

text \<open>\<open>xs.extend(x)\<close> iterates over \<open>x\<close>: the elements of a list, the keys of a dict, the
  characters of a string; anything else is not iterable.\<close>

fun py_iter :: "json \<Rightarrow> exn + json list" where
  "py_iter (JArr xs) = Inr xs"
| "py_iter (JObj kvs) = Inr (map (\<lambda>kv. JStr (fst kv)) kvs)"
| "py_iter (JStr s) = Inr (map (\<lambda>c. JStr [c]) s)"
| "py_iter _ = Inl TypeError"

section \<open>\<open>analyze_spec\<close>\<close>

definition http_methods :: "string list" where
  "http_methods = [''get'', ''post'', ''put'', ''delete'', ''patch'']"

text \<open>The dict appended for one recognised \<open>(path, method, operation)\<close>: the body of the
  inner \<open>if\<close>. The keys of a parsed document are strings, so the f-string
  \<open>f"{method}_{path}"\<close> is plain concatenation.\<close>

definition descriptor :: "json \<Rightarrow> string \<Rightarrow> string \<Rightarrow> json \<Rightarrow> exn + json" where
  "descriptor global_consumes path method operation =
     bnd (py_get operation ''consumes'' global_consumes) (\<lambda>consumes.
     bnd (py_get operation ''operationId'' (JStr (method @ ''_'' @ path))) (\<lambda>operation_id.
     bnd (py_get operation ''parameters'' (JArr [])) (\<lambda>parameters.
     bnd (py_get operation ''requestBody'' (JObj [])) (\<lambda>requestBody.
     bnd (py_get operation ''responses'' (JObj [])) (\<lambda>responses.
     Inr (JObj [(''path'', JStr path),
                (''method'', JStr method),
                (''operation_id'', operation_id),
                (''parameters'', parameters),
                (''requestBody'', requestBody),
                (''responses'', responses),
                (''consumes'', consumes)]))))))"

text \<open>The inner loop, over the \<open>(method, operation)\<close> items of one path item.\<close>

fun methods_loop :: "json \<Rightarrow> string \<Rightarrow> (string \<times> json) list \<Rightarrow> exn + json list" where
  "methods_loop global_consumes path [] = Inr []"
| "methods_loop global_consumes path ((method, operation) # rest) =
     (if method \<in> set http_methods
      then bnd (descriptor global_consumes path method operation) (\<lambda>d.
           bnd (methods_loop global_consumes path rest) (\<lambda>ds. Inr (d # ds)))
      else methods_loop global_consumes path rest)"

text \<open>The outer loop, over the \<open>(path, path_item)\<close> items of \<open>spec['paths']\<close>.\<close>

fun paths_loop :: "json \<Rightarrow> (string \<times> json) list \<Rightarrow> exn + json list" where
  "paths_loop global_consumes [] = Inr []"
| "paths_loop global_consumes ((path, path_item) # rest) =
     bnd (py_items path_item) (\<lambda>items.
     bnd (methods_loop global_consumes path items) (\<lambda>ds.
     bnd (paths_loop global_consumes rest) (\<lambda>ds'. Inr (ds @ ds'))))"

definition analyze_spec :: "json \<Rightarrow> exn + json list" where
  "analyze_spec spec =
     bnd (py_get spec ''consumes'' (JArr [JStr ''application/json''])) (\<lambda>global_consumes.
     bnd (py_getitem spec ''paths'') (\<lambda>paths.
     bnd (py_items paths) (\<lambda>path_items.
     paths_loop global_consumes path_items)))"

section \<open>The environment: HTTP, the case generator, and two built-ins\<close>

text \<open>What the script reads of a \<open>requests\<close> response: \<open>status_code\<close>, \<open>text\<close>, and the
  outcome of calling \<open>json()\<close> (a value, or the exception it raises).\<close>

record response =
  status_code :: int
  resp_text :: string
  resp_json :: "exn + json"

text \<open>The two ways the script hands the body to \<open>requests.request\<close>: \<open>data=body\<close>
  (form encoding) or \<open>json=body\<close>.\<close>

datatype encoding = DataArg | JsonArg

record http_call =
  call_method :: string
  call_url :: string
  call_headers :: json
  call_encoding :: encoding
  call_body :: json

text \<open>
  The collaborators the script calls but does not define: \<open>requests.request\<close> (a response
  or an exception), the language-model chain behind \<open>generate_test_case\<close> (a parsed JSON
  value or an exception), Python's \<open>str\<close> on an exception, Python's formatting of a
  value inside an f-string, and Python's \<open>str.lower\<close> on text outside ASCII (a string
  here is a list of bytes, so Unicode case mapping cannot be computed on it).
\<close>

record env =
  requests_request :: "http_call \<Rightarrow> exn + response"
  generate_test_case :: "json \<Rightarrow> exn + json"
  exn_str :: "exn \<Rightarrow> string"
  format_value :: "json \<Rightarrow> string"
  str_lower :: "string \<Rightarrow> string"

text \<open>A string formats as itself inside an f-string.\<close>

fun py_format :: "env \<Rightarrow> json \<Rightarrow> string" where
  "py_format E (JStr s) = s"
| "py_format E v = format_value E v"

text \<open>\<open>s.lower()\<close>: a method of strings only. On a string of ASCII characters it lowers
  the letters \<open>A\<close> to \<open>Z\<close>; any other string is lowered by Python's Unicode mapping.\<close>

definition lower_str :: "env \<Rightarrow> string \<Rightarrow> string" where
  "lower_str E s =
     (if list_all (\<lambda>c. (of_char c :: nat) < 128) s then map lower_char s else str_lower E s)"

fun py_lower :: "env \<Rightarrow> json \<Rightarrow> exn + string" where
  "py_lower E (JStr s) = Inr (lower_str E s)"
| "py_lower E _ = Inl AttributeError"

section \<open>\<open>run_test_case\<close>\<close>

text \<open>The local variables at the \<open>try\<close>.\<close>

record locals =
  var_url :: string
  var_method :: string
  var_headers :: json
  var_body :: json

text \<open>
  \<open>headers\<close> is the very dict stored under \<open>request['headers']\<close> when that key is
  present, and a fresh \<open>{}\<close> otherwise; an assignment into \<open>headers\<close> is therefore an
  assignment into the test case in the first case and invisible in the second.
\<close>

fun write_back :: "json \<Rightarrow> json \<Rightarrow> json \<Rightarrow> json" where
  "write_back (JObj tc) (JObj req) hs =
     (if ''headers'' \<in> set (map fst req)
      then JObj (dict_set ''request'' (JObj (dict_set ''headers'' hs req)) tc)
      else JObj tc)"
| "write_back tc req hs = tc"

text \<open>
  The statements before the \<open>try\<close>; an exception here leaves \<open>run_test_case\<close>. The result
  is the local variables and the test case as it is afterwards.
\<close>

definition prepare :: "env \<Rightarrow> string \<Rightarrow> json \<Rightarrow> json \<Rightarrow> exn + (locals \<times> json)" where
  "prepare E base_url test_case operation =
     bnd (py_getitem test_case ''request'') (\<lambda>request.
     bnd (py_getitem request ''path'') (\<lambda>path.
     bnd (py_getitem request ''method'') (\<lambda>m.
     bnd (py_lower E m) (\<lambda>method.
     bnd (py_get request ''headers'' (JObj [])) (\<lambda>headers.
     bnd (py_get request ''body'' JNull) (\<lambda>body.
     bnd (py_contains headers ''Content-Type'') (\<lambda>present.
     let vars = \<lparr>var_url = base_url @ py_format E path, var_method = method,
                 var_headers = headers, var_body = body\<rparr>
     in if present then Inr (vars, test_case)
        else bnd (py_getitem operation ''consumes'') (\<lambda>consumes.
             if py_truthy consumes
             then bnd (py_first consumes) (\<lambda>ct.
                  bnd (py_setitem headers ''Content-Type'' ct) (\<lambda>hs.
                  Inr (vars\<lparr>var_headers := hs\<rparr>, write_back test_case request hs)))
             else Inr (vars, test_case)))))))))"

text \<open>The arguments of the \<open>requests.request\<close> call: the \<open>if\<close> at the head of the
  \<open>try\<close> chooses between \<open>data=\<close> and \<open>json=\<close>.\<close>

definition make_call :: "locals \<Rightarrow> exn + http_call" where
  "make_call vars =
     bnd (py_get (var_headers vars) ''Content-Type'' JNull) (\<lambda>ct.
     Inr \<lparr>call_method = var_method vars, call_url = var_url vars,
          call_headers = var_headers vars,
          call_encoding =
            (if ct = JStr ''application/x-www-form-urlencoded'' then DataArg else JsonArg),
          call_body = var_body vars\<rparr>)"

text \<open>The body of the \<open>try\<close>.\<close>

definition attempt :: "env \<Rightarrow> json \<Rightarrow> locals \<Rightarrow> exn + (string \<times> json) list" where
  "attempt E test_case vars =
     bnd (make_call vars) (\<lambda>call.
     bnd (requests_request E call) (\<lambda>response.
     let actual_status = status_code response in
     bnd (if resp_text response \<noteq> [] then resp_json response else Inr JNull) (\<lambda>actual_body.
     bnd (py_getitem test_case ''expected_response'') (\<lambda>er.
     bnd (py_getitem er ''status_code'') (\<lambda>expected_status.
     bnd (py_getitem test_case ''expected_response'') (\<lambda>er'.
     bnd (py_get er' ''body'' JNull) (\<lambda>expected_body.
     bnd (py_getitem test_case ''test_name'') (\<lambda>test_name.
     Inr [(''test_name'', test_name),
          (''passed'', JBool (py_int_eq actual_status expected_status)),
          (''expected_status'', expected_status),
          (''actual_status'', JInt actual_status),
          (''expected_body'', expected_body),
          (''actual_body'', actual_body)]))))))))"

text \<open>The \<open>except Exception as e\<close> handler; its own lookup of \<open>test_name\<close> is not
  protected.\<close>

definition handler :: "env \<Rightarrow> json \<Rightarrow> exn \<Rightarrow> exn + (string \<times> json) list" where
  "handler E test_case e =
     bnd (py_getitem test_case ''test_name'') (\<lambda>test_name.
     Inr [(''test_name'', test_name),
          (''passed'', JBool False),
          (''error'', JStr (exn_str E e))])"

text \<open>The result dict, paired with the test case as the call leaves it.\<close>

definition run_test_case ::
    "env \<Rightarrow> string \<Rightarrow> json \<Rightarrow> json \<Rightarrow> exn + ((string \<times> json) list \<times> json)" where
  "run_test_case E base_url test_case operation =
     bnd (prepare E base_url test_case operation) (\<lambda>(vars, test_case').
     bnd (case attempt E test_case' vars of
            Inr result \<Rightarrow> Inr result
          | Inl e \<Rightarrow> handler E test_case' e) (\<lambda>result.
     Inr (result, test_case')))"

section \<open>\<open>main\<close>\<close>

text \<open>The first loop: \<open>all_test_cases.extend(generate_test_case(operation))\<close>.\<close>

fun generate_loop :: "env \<Rightarrow> json list \<Rightarrow> exn + json list" where
  "generate_loop E [] = Inr []"
| "generate_loop E (operation # rest) =
     bnd (generate_test_case E operation) (\<lambda>test_case.
     bnd (py_iter test_case) (\<lambda>new.
     bnd (generate_loop E rest) (\<lambda>more. Inr (new @ more))))"

text \<open>The second loop, over \<open>zip(all_test_cases, operations)\<close>.\<close>

fun run_loop :: "env \<Rightarrow> string \<Rightarrow> (json \<times> json) list \<Rightarrow> exn + (string \<times> json) list list" where
  "run_loop E base_url [] = Inr []"
| "run_loop E base_url ((test_case, operation) # rest) =
     bnd (run_test_case E base_url test_case operation) (\<lambda>(result, tc').
     bnd (run_loop E base_url rest) (\<lambda>results. Inr (result # results)))"

text \<open>
  \<open>main\<close> from the parsed specification on. The value is the pair of lists the script
  writes to \<open>test_cases.json\<close> and \<open>test_results.json\<close>; the first file is written before
  the second loop starts. Printing is left out.
\<close>

definition main :: "env \<Rightarrow> json \<Rightarrow> string \<Rightarrow> exn + (json list \<times> (string \<times> json) list list)" where
  "main E openapi_spec base_url =
     bnd (analyze_spec openapi_spec) (\<lambda>operations.
     bnd (generate_loop E operations) (\<lambda>all_test_cases.
     bnd (run_loop E base_url (zip all_test_cases operations)) (\<lambda>test_results.
     Inr (all_test_cases, test_results))))"

section \<open>Vocabulary of the properties\<close>

text \<open>Lookup with a default, as \<open>dict.get\<close> computes it.\<close>

definition getd :: "(string \<times> json) list \<Rightarrow> string \<Rightarrow> json \<Rightarrow> json" where
  "getd kvs k d = (case map_of kvs k of None \<Rightarrow> d | Some v \<Rightarrow> v)"

text \<open>
  The operations of a description: the \<open>(path, method, operation)\<close> triples whose method
  is one of the five recognised ones, paths in document order and, within a path, methods
  in document order.
\<close>

definition doc_operations :: "(string \<times> json) list \<Rightarrow> (string \<times> string \<times> json) list" where
  "doc_operations paths =
     [(path, method, operation).
        (path, JObj items) \<leftarrow> paths, (method, operation) \<leftarrow> items, method \<in> set http_methods]"

fun is_dict :: "json \<Rightarrow> bool" where
  "is_dict (JObj kvs) = True"
| "is_dict _ = False"


subsection \<open>A small description\<close>

definition ex_paths :: "(string \<times> json) list" where
  "ex_paths =
     [(''/items'',
         JObj [(''get'', JObj [(''operationId'', JStr ''listItems'')]),
               (''head'', JObj []),
               (''post'', JObj [(''consumes'', JArr [JStr ''text/plain''])])]),
      (''/health'',
         JObj [(''options'', JObj []),
               (''parameters'', JArr []),
               (''get'', JObj [])])]"

text \<open>The same paths under a document that declares \<open>consumes\<close>, and under one that does
  not.\<close>

definition ex_doc :: "(string \<times> json) list" where
  "ex_doc = [(''consumes'', JArr [JStr ''application/xml'']), (''paths'', JObj ex_paths)]"

definition ex_doc_plain :: "(string \<times> json) list" where
  "ex_doc_plain = [(''swagger'', JStr ''2.0''), (''paths'', JObj ex_paths)]"

definition ex_descriptors :: "json \<Rightarrow> json list" where
  "ex_descriptors gc =
     [JObj [(''path'', JStr ''/items''), (''method'', JStr ''get''),
            (''operation_id'', JStr ''listItems''), (''parameters'', JArr []),
            (''requestBody'', JObj []), (''responses'', JObj []),
            (''consumes'', gc)],
      JObj [(''path'', JStr ''/items''), (''method'', JStr ''post''),
            (''operation_id'', JStr ''post_/items''), (''parameters'', JArr []),
            (''requestBody'', JObj []), (''responses'', JObj []),
            (''consumes'', JArr [JStr ''text/plain''])],
      JObj [(''path'', JStr ''/health''), (''method'', JStr ''get''),
            (''operation_id'', JStr ''get_/health''), (''parameters'', JArr []),
            (''requestBody'', JObj []), (''responses'', JObj []),
            (''consumes'', gc)]]"

subsection \<open>The build step as a state change\<close>

text \<open>
  The two objects \<open>run_test_case\<close> receives, as the statements before the \<open>try\<close> leave
  them. The script never assigns into \<open>operation\<close>.
\<close>

definition build_step :: "env \<Rightarrow> string \<Rightarrow> json \<times> json \<Rightarrow> exn + (json \<times> json)" where
  "build_step E base_url objs =
     bnd (prepare E base_url (fst objs) (snd objs)) (\<lambda>(vars, test_case').
     Inr (test_case', snd objs))"

text \<open>The dict the \<open>except\<close> handler returns.\<close>

definition failure_result :: "env \<Rightarrow> json \<Rightarrow> exn \<Rightarrow> (string \<times> json) list" where
  "failure_result E name e =
     [(''test_name'', name), (''passed'', JBool False), (''error'', JStr (exn_str E e))]"

subsection \<open>A test case, an operation and an environment\<close>

definition ex_operation :: "json list \<Rightarrow> json" where
  "ex_operation cs =
     JObj [(''path'', JStr ''/items''), (''method'', JStr ''post''),
           (''operation_id'', JStr ''post_/items''), (''parameters'', JArr []),
           (''requestBody'', JObj []), (''responses'', JObj []),
           (''consumes'', JArr cs)]"

definition ex_request :: "(string \<times> json) list \<Rightarrow> (string \<times> json) list" where
  "ex_request extra =
     [(''method'', JStr ''POST''), (''path'', JStr ''/items'')] @ extra @
     [(''body'', JObj [(''a'', JStr ''1''), (''b'', JStr ''2'')])]"

definition ex_test_case :: "(string \<times> json) list \<Rightarrow> (string \<times> json) list" where
  "ex_test_case extra =
     [(''test_name'', JStr ''create item''),
      (''request'', JObj (ex_request extra)),
      (''expected_response'',
         JObj [(''status_code'', JInt 200), (''body'', JObj [(''ok'', JBool True)])])]"

definition ex_base :: string where
  "ex_base = ''http://localhost:8080''"

definition ex_vars :: "(string \<times> json) list \<Rightarrow> locals" where
  "ex_vars hs =
     \<lparr>var_url = ''http://localhost:8080/items'', var_method = ''post'',
      var_headers = JObj hs,
      var_body = JObj [(''a'', JStr ''1''), (''b'', JStr ''2'')]\<rparr>"

definition ex_call :: "(string \<times> json) list \<Rightarrow> encoding \<Rightarrow> http_call" where
  "ex_call hs enc =
     \<lparr>call_method = ''post'', call_url = ''http://localhost:8080/items'',
      call_headers = JObj hs, call_encoding = enc,
      call_body = JObj [(''a'', JStr ''1''), (''b'', JStr ''2'')]\<rparr>"

definition ex_response :: "int \<Rightarrow> string \<Rightarrow> exn + json \<Rightarrow> response" where
  "ex_response code txt js = \<lparr>status_code = code, resp_text = txt, resp_json = js\<rparr>"

definition ex_str :: "exn \<Rightarrow> string" where
  "ex_str e = (case e of LibError msg \<Rightarrow> msg | KeyError k \<Rightarrow> ''KeyError''
               | TypeError \<Rightarrow> ''TypeError'' | AttributeError \<Rightarrow> ''AttributeError''
               | IndexError \<Rightarrow> ''IndexError'')"

definition ex_env :: "(exn + response) \<Rightarrow> env" where
  "ex_env outcome =
     \<lparr>requests_request = (\<lambda>call. outcome),
      generate_test_case = (\<lambda>operation. Inr (JArr [])),
      exn_str = ex_str,
      format_value = (\<lambda>v. ''?''),
      str_lower = (\<lambda>s. s)\<rparr>"

subsection \<open>A generator and a server for a whole run\<close>

text \<open>The generator answers with two test cases for the operation \<open>listItems\<close> and one
  for any other; the server accepts XML only.\<close>

definition ex_case :: "string \<Rightarrow> json" where
  "ex_case name =
     JObj [(''test_name'', JStr name),
           (''request'', JObj [(''method'', JStr ''GET''), (''path'', JStr ''/items'')]),
           (''expected_response'', JObj [(''status_code'', JInt 200)])]"

definition ex_generate :: "json \<Rightarrow> exn + json" where
  "ex_generate operation =
     (if py_getitem operation ''operation_id'' = Inr (JStr ''listItems'')
      then Inr (JArr [ex_case ''list 1'', ex_case ''list 2''])
      else Inr (JArr [ex_case ''other'']))"

definition ex_server :: "http_call \<Rightarrow> exn + response" where
  "ex_server call =
     (if py_getitem (call_headers call) ''Content-Type'' = Inr (JStr ''application/xml'')
      then Inr (ex_response 200 [] (Inl (LibError ''Expecting value'')))
      else Inr (ex_response 415 [] (Inl (LibError ''Expecting value''))))"

definition ex_main_env :: env where
  "ex_main_env =
     \<lparr>requests_request = ex_server,
      generate_test_case = ex_generate,
      exn_str = ex_str,
      format_value = (\<lambda>v. ''?''),
      str_lower = (\<lambda>s. s)\<rparr>"

definition ex_result :: "string \<Rightarrow> int \<Rightarrow> (string \<times> json) list" where
  "ex_result name code =
     [(''test_name'', JStr name), (''passed'', JBool (code = 200)),
      (''expected_status'', JInt 200), (''actual_status'', JInt code),
      (''expected_body'', JNull), (''actual_body'', JNull)]"

section \<open>Properties of \<open>analyze_spec\<close>\<close>

lemma bnd_Inr_iff: "bnd x f = Inr y \<longleftrightarrow> (\<exists>v. x = Inr v \<and> f v = Inr y)"
  by (cases x) auto

lemma py_get_JObj: "py_get (JObj kvs) k d = Inr (getd kvs k d)"
  by (simp add: getd_def split: option.splits)

lemma descriptor_JObj:
  "descriptor gc p m (JObj ob) =
     Inr (JObj [(''path'', JStr p), (''method'', JStr m),
                (''operation_id'', getd ob ''operationId'' (JStr (m @ ''_'' @ p))),
                (''parameters'', getd ob ''parameters'' (JArr [])),
                (''requestBody'', getd ob ''requestBody'' (JObj [])),
                (''responses'', getd ob ''responses'' (JObj [])),
                (''consumes'', getd ob ''consumes'' gc)])"
  by (simp add: descriptor_def py_get_JObj del: py_get.simps)

lemma descriptor_Inr_dict: "descriptor gc p m opn = Inr d \<Longrightarrow> is_dict opn"
  by (cases opn) (simp_all add: descriptor_def)

lemma descriptor_fields:
  assumes "descriptor gc p m opn = Inr d"
  obtains ob where "opn = JObj ob"
    and "py_getitem d ''path'' = Inr (JStr p)"
    and "py_getitem d ''method'' = Inr (JStr m)"
    and "py_getitem d ''operation_id'' = Inr (getd ob ''operationId'' (JStr (m @ ''_'' @ p)))"
    and "py_getitem d ''consumes'' = Inr (getd ob ''consumes'' gc)"
proof -
  from descriptor_Inr_dict [OF assms] obtain ob where ob: "opn = JObj ob" by (cases opn) auto
  with assms have "d = JObj [(''path'', JStr p), (''method'', JStr m),
                (''operation_id'', getd ob ''operationId'' (JStr (m @ ''_'' @ p))),
                (''parameters'', getd ob ''parameters'' (JArr [])),
                (''requestBody'', getd ob ''requestBody'' (JObj [])),
                (''responses'', getd ob ''responses'' (JObj [])),
                (''consumes'', getd ob ''consumes'' gc)]"
    by (simp add: descriptor_JObj)
  with ob that show thesis by simp
qed

text \<open>The inner loop yields one descriptor for each recognised method, in order.\<close>

lemma methods_loop_ok:
  "methods_loop gc p items = Inr ds \<Longrightarrow>
   list_all2 (\<lambda>d (m, opn). descriptor gc p m opn = Inr d) ds
     (filter (\<lambda>(m, opn). m \<in> set http_methods) items)"
proof (induction items arbitrary: ds)
  case Nil
  then show ?case by simp
next
  case (Cons a items)
  obtain m opn where a: "a = (m, opn)" by (cases a)
  show ?case
  proof (cases "m \<in> set http_methods")
    case True
    with Cons.prems a obtain d ds' where
      "descriptor gc p m opn = Inr d" "methods_loop gc p items = Inr ds'" "ds = d # ds'"
      by (auto simp: bnd_Inr_iff)
    with Cons.IH True a show ?thesis by simp
  next
    case False
    with Cons a show ?thesis by simp
  qed
qed


lemma doc_operations_Cons:
  "doc_operations ((p, JObj items) # rest) =
     map (\<lambda>(m, opn). (p, m, opn)) (filter (\<lambda>(m, opn). m \<in> set http_methods) items)
     @ doc_operations rest"
proof -
  have "concat (map (\<lambda>x. case x of (m, opn) \<Rightarrow>
                  if m \<in> set http_methods then [(p, m, opn)] else []) items)
      = map (\<lambda>(m, opn). (p, m, opn)) (filter (\<lambda>(m, opn). m \<in> set http_methods) items)"
    by (induction items) auto
  then show ?thesis by (simp add: doc_operations_def)
qed

text \<open>The outer loop yields the descriptors of the operations of the description, in
  order.\<close>

lemma paths_loop_ok:
  "paths_loop gc paths = Inr ds \<Longrightarrow>
   list_all2 (\<lambda>d (p, m, opn). descriptor gc p m opn = Inr d) ds (doc_operations paths)"
proof (induction paths arbitrary: ds)
  case Nil
  then show ?case by (simp add: doc_operations_def)
next
  case (Cons a paths)
  obtain p item where a: "a = (p, item)" by (cases a)
  from Cons.prems a obtain items ds1 ds2 where
    i: "py_items item = Inr items" and m: "methods_loop gc p items = Inr ds1"
    and r: "paths_loop gc paths = Inr ds2" and ds: "ds = ds1 @ ds2"
    by (auto simp: bnd_Inr_iff)
  from i have item: "item = JObj items" by (cases item) auto
  have h: "list_all2 (\<lambda>d (p, m, opn). descriptor gc p m opn = Inr d) ds1
          (map (\<lambda>(m, opn). (p, m, opn)) (filter (\<lambda>(m, opn). m \<in> set http_methods) items))"
    using methods_loop_ok [OF m] by (simp add: list_all2_map2 case_prod_unfold)
  show ?case
    unfolding a item ds doc_operations_Cons by (rule list_all2_appendI [OF h Cons.IH [OF r]])
qed


lemma analyze_spec_JObj:
  "map_of doc ''paths'' = Some (JObj paths) \<Longrightarrow>
   analyze_spec (JObj doc) =
     paths_loop (getd doc ''consumes'' (JArr [JStr ''application/json''])) paths"
  by (simp add: analyze_spec_def py_get_JObj del: py_get.simps)


text \<open>The \<open>i\<close>-th descriptor is built from the \<open>i\<close>-th operation of the description.\<close>

lemma analyze_spec_nth:
  assumes "analyze_spec (JObj doc) = Inr ds" and "map_of doc ''paths'' = Some (JObj paths)"
    and "i < length ds" and "doc_operations paths ! i = (p, m, opn)"
  shows "descriptor (getd doc ''consumes'' (JArr [JStr ''application/json''])) p m opn
           = Inr (ds ! i)"
proof -
  from assms(1,2)
  have "paths_loop (getd doc ''consumes'' (JArr [JStr ''application/json''])) paths = Inr ds"
    by (simp add: analyze_spec_JObj)
  from paths_loop_ok [OF this] assms(3,4) show ?thesis
    by (auto simp: list_all2_conv_all_nth)
qed

lemma ex_doc_operations:
  "doc_operations ex_paths =
     [(''/items'', ''get'', JObj [(''operationId'', JStr ''listItems'')]),
      (''/items'', ''post'', JObj [(''consumes'', JArr [JStr ''text/plain''])]),
      (''/health'', ''get'', JObj [])]"
  by (simp add: doc_operations_def ex_paths_def http_methods_def)


lemma ex_analyze:
  "analyze_spec (JObj ex_doc) = Inr (ex_descriptors (JArr [JStr ''application/xml'']))"
  by (simp add: analyze_spec_def ex_doc_def ex_paths_def http_methods_def descriptor_def
      ex_descriptors_def)

lemma ex_analyze_plain:
  "analyze_spec (JObj ex_doc_plain) = Inr (ex_descriptors (JArr [JStr ''application/json'']))"
  by (simp add: analyze_spec_def ex_doc_plain_def ex_paths_def http_methods_def descriptor_def
      ex_descriptors_def)



text \<open>
  Claim C3. The \<open>consumes\<close> of the descriptor built from an operation is the operation's
  own \<open>consumes\<close> when the operation has that key; otherwise the document's \<open>consumes\<close>
  when the document has that key; otherwise \<open>["application/json"]\<close>. The fallback is taken
  operation by operation.
\<close>

theorem consumes_fallback:
  assumes "analyze_spec (JObj doc) = Inr ds" and "map_of doc ''paths'' = Some (JObj paths)"
    and "i < length ds" and "doc_operations paths ! i = (p, m, JObj opn)"
  shows "py_getitem (ds ! i) ''consumes'' =
           Inr (case map_of opn ''consumes'' of
                  Some c \<Rightarrow> c
                | None \<Rightarrow> (case map_of doc ''consumes'' of
                             Some g \<Rightarrow> g
                           | None \<Rightarrow> JArr [JStr ''application/json'']))"
proof -
  from analyze_spec_nth [OF assms] show ?thesis
    by (elim descriptor_fields) (simp add: getd_def)
qed

theorem consumes_fallback_witness:
  "analyze_spec (JObj ex_doc) = Inr (ex_descriptors (JArr [JStr ''application/xml''])) \<and>
   analyze_spec (JObj ex_doc_plain) = Inr (ex_descriptors (JArr [JStr ''application/json''])) \<and>
   doc_operations ex_paths ! 1 =
     (''/items'', ''post'', JObj [(''consumes'', JArr [JStr ''text/plain''])]) \<and>
   doc_operations ex_paths ! 2 = (''/health'', ''get'', JObj []) \<and>
   py_getitem (ex_descriptors (JArr [JStr ''application/xml'']) ! 1) ''consumes''
     = Inr (JArr [JStr ''text/plain'']) \<and>
   py_getitem (ex_descriptors (JArr [JStr ''application/xml'']) ! 2) ''consumes''
     = Inr (JArr [JStr ''application/xml'']) \<and>
   py_getitem (ex_descriptors (JArr [JStr ''application/json'']) ! 2) ''consumes''
     = Inr (JArr [JStr ''application/json''])"
proof -
  have p: "map_of ex_doc ''paths'' = Some (JObj ex_paths)" by (simp add: ex_doc_def)
  have q: "map_of ex_doc_plain ''paths'' = Some (JObj ex_paths)" by (simp add: ex_doc_plain_def)
  have l: "1 < length (ex_descriptors gc)" "2 < length (ex_descriptors gc)" for gc
    by (simp_all add: ex_descriptors_def)
  have o1: "doc_operations ex_paths ! 1 =
      (''/items'', ''post'', JObj [(''consumes'', JArr [JStr ''text/plain''])])"
    by (simp add: ex_doc_operations)
  have o2: "doc_operations ex_paths ! 2 = (''/health'', ''get'', JObj [])"
    by (simp add: ex_doc_operations)
  have "py_getitem (ex_descriptors (JArr [JStr ''application/xml'']) ! 1) ''consumes''
          = Inr (JArr [JStr ''text/plain''])"
    using consumes_fallback [OF ex_analyze p l(1) o1] by simp
  moreover
  have "py_getitem (ex_descriptors (JArr [JStr ''application/xml'']) ! 2) ''consumes''
          = Inr (JArr [JStr ''application/xml''])"
    using consumes_fallback [OF ex_analyze p l(2) o2] by (simp add: ex_doc_def)
  moreover
  have "py_getitem (ex_descriptors (JArr [JStr ''application/json'']) ! 2) ''consumes''
          = Inr (JArr [JStr ''application/json''])"
    using consumes_fallback [OF ex_analyze_plain q l(2) o2] by (simp add: ex_doc_plain_def)
  ultimately show ?thesis using ex_analyze ex_analyze_plain o1 o2 by simp
qed

text \<open>
  Claim C10. The descriptor built from an operation that has no \<open>operationId\<close> key has
  \<open>operation_id\<close> equal to the method, an underscore and the path, concatenated; the
  method is one of the five lowercase names. For \<open>post\<close> at \<open>/items\<close> this is
  \<open>post_/items\<close>.
\<close>

theorem default_operation_id:
  assumes "analyze_spec (JObj doc) = Inr ds" and "map_of doc ''paths'' = Some (JObj paths)"
    and "i < length ds" and "doc_operations paths ! i = (p, m, JObj opn)"
    and "map_of opn ''operationId'' = None"
  shows "py_getitem (ds ! i) ''operation_id'' = Inr (JStr (m @ ''_'' @ p))
         \<and> m \<in> set http_methods"
proof -
  from analyze_spec_nth [OF assms(1-4)] assms(5)
  have "py_getitem (ds ! i) ''operation_id'' = Inr (JStr (m @ ''_'' @ p))"
    by (elim descriptor_fields) (simp add: getd_def)
  moreover
  from assms(1,2) have "length ds = length (doc_operations paths)"
    using paths_loop_ok [of "getd doc ''consumes'' (JArr [JStr ''application/json''])" paths ds]
    by (simp add: analyze_spec_JObj list_all2_lengthD)
  with assms(3) have "doc_operations paths ! i \<in> set (doc_operations paths)" by simp
  with assms(4) have "m \<in> set http_methods" by (auto simp: doc_operations_def)
  ultimately show ?thesis by simp
qed

theorem default_operation_id_witness:
  "analyze_spec (JObj ex_doc) = Inr (ex_descriptors (JArr [JStr ''application/xml''])) \<and>
   doc_operations ex_paths ! 1 =
     (''/items'', ''post'', JObj [(''consumes'', JArr [JStr ''text/plain''])]) \<and>
   map_of [(''consumes'', JArr [JStr ''text/plain''])] ''operationId'' = None \<and>
   py_getitem (ex_descriptors (JArr [JStr ''application/xml'']) ! 1) ''operation_id''
     = Inr (JStr ''post_/items'')"
proof -
  have p: "map_of ex_doc ''paths'' = Some (JObj ex_paths)" by (simp add: ex_doc_def)
  have l: "1 < length (ex_descriptors (JArr [JStr ''application/xml'']))"
    by (simp add: ex_descriptors_def)
  have o1: "doc_operations ex_paths ! 1 =
      (''/items'', ''post'', JObj [(''consumes'', JArr [JStr ''text/plain''])])"
    by (simp add: ex_doc_operations)
  have n: "map_of [(''consumes'', JArr [JStr ''text/plain''])] ''operationId'' = None"
    by simp
  from default_operation_id [OF ex_analyze p l o1 n] ex_analyze o1 show ?thesis by simp
qed

section \<open>Properties of \<open>run_test_case\<close>\<close>

subsection \<open>Dict assignment\<close>

lemma map_of_dict_set: "map_of (dict_set k v kvs) = (map_of kvs)(k \<mapsto> v)"
  by (induction kvs) (auto simp: fun_eq_iff)

lemma dict_set_fresh: "k \<notin> set (map fst kvs) \<Longrightarrow> dict_set k v kvs = kvs @ [(k, v)]"
  by (induction kvs) auto

lemma write_back_getitem:
  "k \<noteq> ''request'' \<Longrightarrow> py_getitem (write_back tc req hs) k = py_getitem tc k"
  by (cases tc; cases req) (simp_all add: map_of_dict_set)

subsection \<open>The statements before the \<open>try\<close>\<close>

text \<open>Only the entry \<open>request\<close> of the test case can change.\<close>

lemma prepare_keeps:
  assumes "prepare E base tc op = Inr (vars, tc')" and "k \<noteq> ''request''"
  shows "py_getitem tc' k = py_getitem tc k"
  using assms
  by (auto simp: prepare_def bnd_Inr_iff Let_def write_back_getitem split: if_splits)

lemma run_test_case_eq:
  "prepare E base tc op = Inr (vars, tc') \<Longrightarrow>
   run_test_case E base tc op =
     bnd (case attempt E tc' vars of Inr r \<Rightarrow> Inr r | Inl e \<Rightarrow> handler E tc' e)
         (\<lambda>r. Inr (r, tc'))"
  by (simp add: run_test_case_def)

text \<open>
  On a test case of the expected shape (a \<open>request\<close> mapping with \<open>path\<close> and a string
  \<open>method\<close>, \<open>headers\<close> absent or a mapping) and a descriptor whose \<open>consumes\<close> is a
  sequence, the statements run to the \<open>try\<close>, with these local variables and this test
  case.
\<close>

lemma prepare_shape:
  assumes "map_of tc ''request'' = Some (JObj req)"
    and "map_of req ''path'' = Some path"
    and "map_of req ''method'' = Some (JStr m)"
    and "getd req ''headers'' (JObj []) = JObj hs"
    and "py_getitem op ''consumes'' = Inr (JArr cs)"
  shows "prepare E base (JObj tc) op =
     (if ''Content-Type'' \<notin> set (map fst hs) \<and> cs \<noteq> []
      then Inr (\<lparr>var_url = base @ py_format E path, var_method = lower_str E m,
                 var_headers = JObj (hs @ [(''Content-Type'', hd cs)]),
                 var_body = getd req ''body'' JNull\<rparr>,
                if ''headers'' \<in> set (map fst req)
                then JObj (dict_set ''request''
                       (JObj (dict_set ''headers''
                          (JObj (hs @ [(''Content-Type'', hd cs)])) req)) tc)
                else JObj tc)
      else Inr (\<lparr>var_url = base @ py_format E path, var_method = lower_str E m,
                 var_headers = JObj hs, var_body = getd req ''body'' JNull\<rparr>, JObj tc))"
proof (cases cs)
  case Nil
  with assms show ?thesis
    by (simp add: prepare_def py_get_JObj Let_def del: py_get.simps)
next
  case (Cons c cs')
  with assms show ?thesis
    by (simp add: prepare_def py_get_JObj Let_def dict_set_fresh del: py_get.simps)
qed

lemma make_call_JObj:
  "make_call \<lparr>var_url = u, var_method = m, var_headers = JObj hs, var_body = b\<rparr> =
     Inr \<lparr>call_method = m, call_url = u, call_headers = JObj hs,
          call_encoding = (if map_of hs ''Content-Type'' =
                                Some (JStr ''application/x-www-form-urlencoded'')
                           then DataArg else JsonArg),
          call_body = b\<rparr>"
  by (auto simp: make_call_def split: option.splits)

lemma prepare_headers_dict:
  assumes "prepare E base tc op = Inr (vars, tc')" and "make_call vars = Inr call"
  shows "\<exists>hs. var_headers vars = JObj hs"
  using assms(2) by (cases "var_headers vars") (simp_all add: make_call_def)

subsection \<open>The \<open>try\<close> and its handler\<close>

lemma attempt_transport_error:
  "make_call vars = Inr call \<Longrightarrow> requests_request E call = Inl e \<Longrightarrow>
   attempt E tc vars = Inl e"
  by (simp add: attempt_def)

lemma attempt_json_error:
  "make_call vars = Inr call \<Longrightarrow> requests_request E call = Inr resp \<Longrightarrow>
   resp_text resp \<noteq> [] \<Longrightarrow> resp_json resp = Inl e \<Longrightarrow> attempt E tc vars = Inl e"
  by (simp add: attempt_def Let_def)

lemma attempt_ok:
  assumes "make_call vars = Inr call" and "requests_request E call = Inr resp"
    and "(if resp_text resp \<noteq> [] then resp_json resp else Inr JNull) = Inr ab"
    and "py_getitem tc ''expected_response'' = Inr er"
    and "py_getitem er ''status_code'' = Inr es"
    and "py_getitem tc ''test_name'' = Inr name"
  shows "\<exists>eb. attempt E tc vars =
           Inr [(''test_name'', name),
                (''passed'', JBool (py_int_eq (status_code resp) es)),
                (''expected_status'', es),
                (''actual_status'', JInt (status_code resp)),
                (''expected_body'', eb),
                (''actual_body'', ab)]"
proof -
  from assms(5) obtain erl where "er = JObj erl" by (cases er) auto
  then have "py_get er ''body'' JNull = Inr (getd erl ''body'' JNull)"
    by (simp add: py_get_JObj del: py_get.simps)
  with assms show ?thesis by (simp add: attempt_def Let_def del: py_get.simps)
qed

lemma run_failure:
  assumes "prepare E base tc op = Inr (vars, tc')" and "attempt E tc' vars = Inl e"
    and "py_getitem tc ''test_name'' = Inr name"
  shows "run_test_case E base tc op = Inr (failure_result E name e, tc')"
proof -
  from prepare_keeps [OF assms(1)] assms(3)
  have "py_getitem tc' ''test_name'' = Inr name" by simp
  with assms(2) show ?thesis
    by (simp add: run_test_case_eq [OF assms(1)] handler_def failure_result_def)
qed

subsection \<open>The example, evaluated\<close>

lemma ex_shape:
  "map_of (ex_test_case extra) ''request'' = Some (JObj (ex_request extra))"
  "map_of (ex_request extra) ''path'' = Some (JStr ''/items'')"
  "map_of (ex_request extra) ''method'' = Some (JStr ''POST'')"
  "py_getitem (ex_operation cs) ''consumes'' = Inr (JArr cs)"
  by (simp_all add: ex_test_case_def ex_request_def ex_operation_def)

lemma ex_headers:
  "getd (ex_request []) ''headers'' (JObj []) = JObj []"
  "getd (ex_request [(''headers'', JObj hs)]) ''headers'' (JObj []) = JObj hs"
  by (simp_all add: ex_request_def getd_def)

lemma ex_headers_key:
  "''headers'' \<in> fst ` set (ex_request [(''headers'', JObj hs)])"
  "''headers'' \<notin> fst ` set (ex_request [])"
  by (simp_all add: ex_request_def)

lemma ex_dict_set:
  "dict_set ''request'' (JObj (dict_set ''headers'' (JObj hs') (ex_request [(''headers'', JObj hs)])))
     (ex_test_case [(''headers'', JObj hs)]) = ex_test_case [(''headers'', JObj hs')]"
  by (simp add: ex_test_case_def ex_request_def)

lemma lower_POST: "lower_str E ''POST'' = ''post''"
proof -
  have "list_all (\<lambda>c. (of_char c :: nat) < 128) ''POST''" by simp
  moreover have "map lower_char ''POST'' = ''post''" by code_simp
  ultimately show ?thesis by (simp add: lower_str_def)
qed

lemma ex_prepare_absent:
  "prepare E ex_base (JObj (ex_test_case [])) (ex_operation cs) =
     Inr (ex_vars (if cs = [] then [] else [(''Content-Type'', hd cs)]), JObj (ex_test_case []))"
  using lower_POST
  by (simp add: prepare_shape [OF ex_shape(1-3) ex_headers(1) ex_shape(4)]
      ex_vars_def ex_base_def)
    (simp add: ex_request_def getd_def)

lemma ex_make_call:
  "make_call (ex_vars hs) =
     Inr (ex_call hs (if map_of hs ''Content-Type'' =
                          Some (JStr ''application/x-www-form-urlencoded'')
                      then DataArg else JsonArg))"
  by (simp add: ex_vars_def ex_call_def make_call_JObj)

lemma ex_test_name: "py_getitem (JObj (ex_test_case extra)) ''test_name'' = Inr (JStr ''create item'')"
  by (simp add: ex_test_case_def)

lemma ex_expected:
  "py_getitem (JObj (ex_test_case extra)) ''expected_response'' =
     Inr (JObj [(''status_code'', JInt 200), (''body'', JObj [(''ok'', JBool True)])])"
  "py_getitem (JObj [(''status_code'', JInt 200), (''body'', JObj [(''ok'', JBool True)])])
     ''status_code'' = Inr (JInt 200)"
  by (simp_all add: ex_test_case_def)

lemma ex_env_request: "requests_request (ex_env outcome) call = outcome"
  by (simp add: ex_env_def)

lemma ex_env_str: "exn_str (ex_env outcome) (LibError msg) = msg"
  by (simp add: ex_env_def ex_str_def)

subsection \<open>Request headers and body encoding\<close>

text \<open>
  Claim C4. The headers of the request handed to \<open>requests.request\<close> are the test case's
  \<open>request.headers\<close> (empty when the key is absent), with \<open>Content-Type\<close> set to the first
  element of the descriptor's \<open>consumes\<close> added exactly when no key of the headers equals
  \<open>Content-Type\<close> and \<open>consumes\<close> is not empty. Headers that already have the key
  \<open>Content-Type\<close> are passed on as they are.
\<close>

theorem request_headers:
  assumes "map_of tc ''request'' = Some (JObj req)"
    and "map_of req ''path'' = Some path"
    and "map_of req ''method'' = Some (JStr m)"
    and "getd req ''headers'' (JObj []) = JObj hs"
    and "py_getitem op ''consumes'' = Inr (JArr cs)"
  shows "\<exists>vars tc' call.
           prepare E base (JObj tc) op = Inr (vars, tc') \<and> make_call vars = Inr call \<and>
           call_headers call =
             JObj (if ''Content-Type'' \<notin> set (map fst hs) \<and> cs \<noteq> []
                   then hs @ [(''Content-Type'', hd cs)] else hs)"
  by (simp add: prepare_shape [OF assms] make_call_JObj)

theorem request_headers_witness:
  "(\<exists>vars tc' call.
      prepare (ex_env (Inl (LibError ''refused''))) ex_base
        (JObj (ex_test_case []))
        (ex_operation [JStr ''application/json'', JStr ''application/xml''])
        = Inr (vars, tc') \<and>
      make_call vars = Inr call \<and>
      call_headers call = JObj [(''Content-Type'', JStr ''application/json'')]) \<and>
   (\<exists>vars tc' call.
      prepare (ex_env (Inl (LibError ''refused''))) ex_base
        (JObj (ex_test_case [(''headers'', JObj [(''Content-Type'', JStr ''text/plain'')])]))
        (ex_operation [JStr ''application/json'', JStr ''application/xml''])
        = Inr (vars, tc') \<and>
      make_call vars = Inr call \<and>
      call_headers call = JObj [(''Content-Type'', JStr ''text/plain'')]) \<and>
   (\<exists>vars tc' call.
      prepare (ex_env (Inl (LibError ''refused''))) ex_base
        (JObj (ex_test_case [(''headers'', JObj [(''content-type'', JStr ''text/plain'')])]))
        (ex_operation [JStr ''application/json'', JStr ''application/xml''])
        = Inr (vars, tc') \<and>
      make_call vars = Inr call \<and>
      call_headers call = JObj [(''content-type'', JStr ''text/plain''),
                                (''Content-Type'', JStr ''application/json'')])"
proof -
  let ?E = "ex_env (Inl (LibError ''refused''))"
  let ?cs = "[JStr ''application/json'', JStr ''application/xml'']"
  note absent = request_headers [where cs = ?cs and E = ?E and base = ex_base,
      OF ex_shape(1-3) ex_headers(1) ex_shape(4)]
  note given = request_headers [where cs = ?cs and E = ?E and base = ex_base,
      OF ex_shape(1-3) ex_headers(2) ex_shape(4)]
  from absent given [of "[(''Content-Type'', JStr ''text/plain'')]"]
    given [of "[(''content-type'', JStr ''text/plain'')]"]
  show ?thesis by simp
qed

text \<open>
  Claim C5. Whenever a request is built, its headers are a mapping, and the body is handed
  over as form data (\<open>data=\<close>) if the \<open>Content-Type\<close> of those headers is exactly the
  string \<open>application/x-www-form-urlencoded\<close>, and as JSON (\<open>json=\<close>) in every other
  case, a missing \<open>Content-Type\<close> included. There is no third way.
\<close>

theorem body_encoding:
  assumes "prepare E base tc op = Inr (vars, tc')" and "make_call vars = Inr call"
  shows "\<exists>hs. call_headers call = JObj hs \<and>
           call_encoding call =
             (if map_of hs ''Content-Type'' = Some (JStr ''application/x-www-form-urlencoded'')
              then DataArg else JsonArg)"
proof -
  from prepare_headers_dict [OF assms] obtain hs where hs: "var_headers vars = JObj hs" ..
  obtain u m b where "vars = \<lparr>var_url = u, var_method = m, var_headers = JObj hs, var_body = b\<rparr>"
    using hs by (cases vars) simp
  with assms(2) show ?thesis by (auto simp: make_call_JObj)
qed

theorem body_encoding_witness:
  "prepare (ex_env (Inl (LibError ''refused''))) ex_base (JObj (ex_test_case []))
       (ex_operation [JStr ''application/x-www-form-urlencoded''])
     = Inr (ex_vars [(''Content-Type'', JStr ''application/x-www-form-urlencoded'')],
            JObj (ex_test_case [])) \<and>
   make_call (ex_vars [(''Content-Type'', JStr ''application/x-www-form-urlencoded'')])
     = Inr (ex_call [(''Content-Type'', JStr ''application/x-www-form-urlencoded'')] DataArg) \<and>
   prepare (ex_env (Inl (LibError ''refused''))) ex_base (JObj (ex_test_case []))
       (ex_operation [JStr ''application/json''])
     = Inr (ex_vars [(''Content-Type'', JStr ''application/json'')], JObj (ex_test_case [])) \<and>
   make_call (ex_vars [(''Content-Type'', JStr ''application/json'')])
     = Inr (ex_call [(''Content-Type'', JStr ''application/json'')] JsonArg) \<and>
   prepare (ex_env (Inl (LibError ''refused''))) ex_base (JObj (ex_test_case []))
       (ex_operation []) = Inr (ex_vars [], JObj (ex_test_case [])) \<and>
   make_call (ex_vars []) = Inr (ex_call [] JsonArg)"
proof -
  let ?E = "ex_env (Inl (LibError ''refused''))"
  have p1: "prepare ?E ex_base (JObj (ex_test_case []))
       (ex_operation [JStr ''application/x-www-form-urlencoded''])
     = Inr (ex_vars [(''Content-Type'', JStr ''application/x-www-form-urlencoded'')],
            JObj (ex_test_case []))"
    by (simp add: ex_prepare_absent)
  have c1: "make_call (ex_vars [(''Content-Type'', JStr ''application/x-www-form-urlencoded'')])
     = Inr (ex_call [(''Content-Type'', JStr ''application/x-www-form-urlencoded'')] DataArg)"
    by (simp add: ex_make_call)
  have p2: "prepare ?E ex_base (JObj (ex_test_case [])) (ex_operation [JStr ''application/json''])
     = Inr (ex_vars [(''Content-Type'', JStr ''application/json'')], JObj (ex_test_case []))"
    by (simp add: ex_prepare_absent)
  have c2: "make_call (ex_vars [(''Content-Type'', JStr ''application/json'')])
     = Inr (ex_call [(''Content-Type'', JStr ''application/json'')] JsonArg)"
    by (simp add: ex_make_call)
  have p3: "prepare ?E ex_base (JObj (ex_test_case [])) (ex_operation [])
     = Inr (ex_vars [], JObj (ex_test_case []))"
    by (simp add: ex_prepare_absent)
  have c3: "make_call (ex_vars []) = Inr (ex_call [] JsonArg)"
    by (simp add: ex_make_call)
  from body_encoding [OF p1 c1] body_encoding [OF p2 c2] body_encoding [OF p3 c3]
    p1 c1 p2 c2 p3 c3
  show ?thesis by simp
qed

subsection \<open>The effect of the build step on its arguments\<close>

text \<open>
  Claim C9, as stated, fails: when the test case carries a \<open>headers\<close> mapping without
  \<open>Content-Type\<close> and \<open>consumes\<close> is not empty, the build step writes the new header
  into the test case's own mapping.
\<close>

theorem build_step_mutates_counterexample:
  "build_step (ex_env (Inl (LibError ''refused''))) ex_base
     (JObj (ex_test_case [(''headers'', JObj [])]), ex_operation [JStr ''application/json''])
   = Inr (JObj (ex_test_case [(''headers'', JObj [(''Content-Type'', JStr ''application/json'')])]),
          ex_operation [JStr ''application/json'']) \<and>
   JObj (ex_test_case [(''headers'', JObj [(''Content-Type'', JStr ''application/json'')])])
     \<noteq> JObj (ex_test_case [(''headers'', JObj [])])"
proof -
  have "build_step (ex_env (Inl (LibError ''refused''))) ex_base
     (JObj (ex_test_case [(''headers'', JObj [])]), ex_operation [JStr ''application/json''])
   = Inr (JObj (ex_test_case [(''headers'', JObj [(''Content-Type'', JStr ''application/json'')])]),
          ex_operation [JStr ''application/json''])"
    by (simp add: build_step_def
        prepare_shape [OF ex_shape(1-3) ex_headers(2) ex_shape(4)] ex_dict_set ex_headers_key)
  moreover
  have "JObj (ex_test_case [(''headers'', JObj [(''Content-Type'', JStr ''application/json'')])])
     \<noteq> JObj (ex_test_case [(''headers'', JObj [])])"
    by (simp add: ex_test_case_def ex_request_def)
  ultimately show ?thesis by simp
qed

text \<open>
  Claim C9, amended. The build step leaves the descriptor unchanged. It leaves the test
  case unchanged unless \<open>request.headers\<close> is present, has no key \<open>Content-Type\<close>, and
  \<open>consumes\<close> is not empty; then the test case afterwards is the test case before with
  \<open>Content-Type = consumes[0]\<close> assigned in \<open>request.headers\<close>, and nothing else changed.
\<close>

theorem build_step_effect:
  assumes "map_of tc ''request'' = Some (JObj req)"
    and "map_of req ''path'' = Some path"
    and "map_of req ''method'' = Some (JStr m)"
    and "getd req ''headers'' (JObj []) = JObj hs"
    and "py_getitem op ''consumes'' = Inr (JArr cs)"
  shows "build_step E base (JObj tc, op) =
           Inr (if ''headers'' \<in> set (map fst req) \<and>
                   ''Content-Type'' \<notin> set (map fst hs) \<and> cs \<noteq> []
                then JObj (dict_set ''request''
                       (JObj (dict_set ''headers''
                          (JObj (hs @ [(''Content-Type'', hd cs)])) req)) tc)
                else JObj tc,
                op)"
  by (simp add: build_step_def prepare_shape [OF assms])

theorem build_step_effect_witness:
  "build_step (ex_env (Inl (LibError ''refused''))) ex_base
     (JObj (ex_test_case [(''headers'', JObj [(''Accept'', JStr ''application/json'')])]),
      ex_operation [JStr ''application/json'', JStr ''application/xml''])
   = Inr (JObj (ex_test_case [(''headers'',
              JObj [(''Accept'', JStr ''application/json''),
                    (''Content-Type'', JStr ''application/json'')])]),
          ex_operation [JStr ''application/json'', JStr ''application/xml'']) \<and>
   build_step (ex_env (Inl (LibError ''refused''))) ex_base
     (JObj (ex_test_case []),
      ex_operation [JStr ''application/json'', JStr ''application/xml''])
   = Inr (JObj (ex_test_case []),
          ex_operation [JStr ''application/json'', JStr ''application/xml''])"
  using build_step_effect [where cs = "[JStr ''application/json'', JStr ''application/xml'']"
          and E = "ex_env (Inl (LibError ''refused''))" and base = ex_base,
          OF ex_shape(1-3) ex_headers(2) ex_shape(4),
          of "[(''Accept'', JStr ''application/json'')]"]
        build_step_effect [where cs = "[JStr ''application/json'', JStr ''application/xml'']"
          and E = "ex_env (Inl (LibError ''refused''))" and base = ex_base,
          OF ex_shape(1-3) ex_headers(1) ex_shape(4)]
  by (simp add: ex_dict_set ex_headers_key)

subsection \<open>Failures of the execution\<close>

text \<open>
  Claim C2. When the statements before the \<open>try\<close> have run, the test case has a
  \<open>test_name\<close>, and \<open>requests.request\<close> raises, \<open>run_test_case\<close> returns (nothing
  propagates) a dict with exactly the keys \<open>test_name\<close>, \<open>passed\<close> and \<open>error\<close>:
  \<open>passed\<close> is false, \<open>error\<close> is the text of the exception, and there is neither
  \<open>actual_status\<close> nor \<open>actual_body\<close>.
\<close>

theorem transport_failure_caught:
  assumes "prepare E base tc op = Inr (vars, tc')" and "make_call vars = Inr call"
    and "requests_request E call = Inl e"
    and "py_getitem tc ''test_name'' = Inr name"
  shows "\<exists>r. run_test_case E base tc op = Inr (r, tc') \<and>
           r = [(''test_name'', name), (''passed'', JBool False),
                (''error'', JStr (exn_str E e))] \<and>
           map_of r ''passed'' = Some (JBool False) \<and>
           map_of r ''error'' = Some (JStr (exn_str E e)) \<and>
           map_of r ''actual_status'' = None \<and> map_of r ''actual_body'' = None"
  using run_failure [OF assms(1) attempt_transport_error [OF assms(2,3)] assms(4)]
  by (simp add: failure_result_def)

theorem transport_failure_caught_witness:
  "run_test_case (ex_env (Inl (LibError ''Connection refused''))) ex_base
     (JObj (ex_test_case [])) (ex_operation [JStr ''application/json'']) =
   Inr ([(''test_name'', JStr ''create item''), (''passed'', JBool False),
         (''error'', JStr ''Connection refused'')], JObj (ex_test_case []))"
proof -
  let ?E = "ex_env (Inl (LibError ''Connection refused''))"
  have p: "prepare ?E ex_base (JObj (ex_test_case [])) (ex_operation [JStr ''application/json''])
     = Inr (ex_vars [(''Content-Type'', JStr ''application/json'')], JObj (ex_test_case []))"
    by (simp add: ex_prepare_absent)
  have c: "make_call (ex_vars [(''Content-Type'', JStr ''application/json'')])
     = Inr (ex_call [(''Content-Type'', JStr ''application/json'')] JsonArg)"
    by (simp add: ex_make_call)
  have r: "requests_request ?E (ex_call [(''Content-Type'', JStr ''application/json'')] JsonArg)
     = Inl (LibError ''Connection refused'')"
    by (simp add: ex_env_request)
  from transport_failure_caught [OF p c r ex_test_name] show ?thesis
    by (simp add: ex_env_str)
qed

text \<open>
  Claim C7. When a response is obtained whose text is not empty and whose \<open>json()\<close>
  raises, the result is the failure dict (\<open>passed\<close> false, \<open>error\<close> the text of the
  exception, no status fields). When the text of the response is empty and the test case
  has an expected status, the result has \<open>actual_body\<close> null and no \<open>error\<close>.
\<close>

theorem json_parse_failure:
  assumes "prepare E base tc op = Inr (vars, tc')" and "make_call vars = Inr call"
    and "requests_request E call = Inr resp"
    and "py_getitem tc ''test_name'' = Inr name"
  shows "(resp_text resp \<noteq> [] \<and> resp_json resp = Inl e \<longrightarrow>
            run_test_case E base tc op =
              Inr ([(''test_name'', name), (''passed'', JBool False),
                    (''error'', JStr (exn_str E e))], tc')) \<and>
         (resp_text resp = [] \<and> py_getitem tc ''expected_response'' = Inr er \<and>
            py_getitem er ''status_code'' = Inr es \<longrightarrow>
            (\<exists>r. run_test_case E base tc op = Inr (r, tc') \<and>
                 map_of r ''actual_body'' = Some JNull \<and> map_of r ''error'' = None))"
proof (intro conjI impI)
  assume "resp_text resp \<noteq> [] \<and> resp_json resp = Inl e"
  then have "attempt E tc' vars = Inl e"
    using attempt_json_error [OF assms(2,3)] by simp
  from run_failure [OF assms(1) this assms(4)]
  show "run_test_case E base tc op =
          Inr ([(''test_name'', name), (''passed'', JBool False),
                (''error'', JStr (exn_str E e))], tc')"
    by (simp add: failure_result_def)
next
  assume a: "resp_text resp = [] \<and> py_getitem tc ''expected_response'' = Inr er \<and>
             py_getitem er ''status_code'' = Inr es"
  from prepare_keeps [OF assms(1)] a assms(4)
  have k: "py_getitem tc' ''expected_response'' = Inr er" "py_getitem tc' ''test_name'' = Inr name"
    by simp_all
  from a have "(if resp_text resp \<noteq> [] then resp_json resp else Inr JNull) = Inr JNull"
    by simp
  from attempt_ok [OF assms(2,3) this k(1) _ k(2), of es] a
  obtain eb where "attempt E tc' vars =
           Inr [(''test_name'', name),
                (''passed'', JBool (py_int_eq (status_code resp) es)),
                (''expected_status'', es),
                (''actual_status'', JInt (status_code resp)),
                (''expected_body'', eb),
                (''actual_body'', JNull)]" by auto
  then show "\<exists>r. run_test_case E base tc op = Inr (r, tc') \<and>
                 map_of r ''actual_body'' = Some JNull \<and> map_of r ''error'' = None"
    by (simp add: run_test_case_eq [OF assms(1)])
qed

theorem json_parse_failure_witness:
  "run_test_case (ex_env (Inr (ex_response 200 ''<html>'' (Inl (LibError ''Expecting value'')))))
     ex_base (JObj (ex_test_case [])) (ex_operation [JStr ''application/json'']) =
   Inr ([(''test_name'', JStr ''create item''), (''passed'', JBool False),
         (''error'', JStr ''Expecting value'')], JObj (ex_test_case [])) \<and>
   (\<exists>r. run_test_case (ex_env (Inr (ex_response 200 [] (Inl (LibError ''Expecting value'')))))
          ex_base (JObj (ex_test_case [])) (ex_operation [JStr ''application/json''])
        = Inr (r, JObj (ex_test_case [])) \<and>
        map_of r ''actual_body'' = Some JNull \<and> map_of r ''error'' = None)"
proof -
  let ?bad = "ex_response 200 ''<html>'' (Inl (LibError ''Expecting value''))"
  let ?empty = "ex_response 200 [] (Inl (LibError ''Expecting value''))"
  have p: "prepare E ex_base (JObj (ex_test_case [])) (ex_operation [JStr ''application/json''])
     = Inr (ex_vars [(''Content-Type'', JStr ''application/json'')], JObj (ex_test_case []))" for E
    by (simp add: ex_prepare_absent)
  have c: "make_call (ex_vars [(''Content-Type'', JStr ''application/json'')])
     = Inr (ex_call [(''Content-Type'', JStr ''application/json'')] JsonArg)"
    by (simp add: ex_make_call)
  have r: "requests_request (ex_env (Inr x))
             (ex_call [(''Content-Type'', JStr ''application/json'')] JsonArg) = Inr x" for x
    by (simp add: ex_env_request)
  from json_parse_failure [OF p c r ex_test_name, of ?bad "LibError ''Expecting value''"]
  have 1: "run_test_case (ex_env (Inr ?bad))
     ex_base (JObj (ex_test_case [])) (ex_operation [JStr ''application/json'']) =
   Inr ([(''test_name'', JStr ''create item''), (''passed'', JBool False),
         (''error'', JStr ''Expecting value'')], JObj (ex_test_case []))"
    by (simp add: ex_response_def ex_env_str)
  from json_parse_failure [OF p c r ex_test_name, of ?empty _
      "JObj [(''status_code'', JInt 200), (''body'', JObj [(''ok'', JBool True)])]" "JInt 200"]
  have 2: "\<exists>r. run_test_case (ex_env (Inr ?empty))
          ex_base (JObj (ex_test_case [])) (ex_operation [JStr ''application/json''])
        = Inr (r, JObj (ex_test_case [])) \<and>
        map_of r ''actual_body'' = Some JNull \<and> map_of r ''error'' = None"
    by (simp add: ex_response_def ex_expected del: py_getitem.simps)
  from 1 2 show ?thesis by simp
qed

subsection \<open>The verdict\<close>

text \<open>
  Claim C1, as stated, fails: a response with the expected status code whose body is not
  empty and not JSON gives \<open>passed = false\<close>.
\<close>

theorem passed_despite_matching_status_counterexample:
  "run_test_case (ex_env (Inr (ex_response 200 ''OK'' (Inl (LibError ''Expecting value'')))))
     ex_base (JObj (ex_test_case [])) (ex_operation [JStr ''application/json'']) =
   Inr ([(''test_name'', JStr ''create item''), (''passed'', JBool False),
         (''error'', JStr ''Expecting value'')], JObj (ex_test_case [])) \<and>
   status_code (ex_response 200 ''OK'' (Inl (LibError ''Expecting value''))) = 200 \<and>
   py_getitem (JObj (ex_test_case [])) ''expected_response'' =
     Inr (JObj [(''status_code'', JInt 200), (''body'', JObj [(''ok'', JBool True)])]) \<and>
   py_int_eq 200 (JInt 200)"
proof -
  let ?resp = "ex_response 200 ''OK'' (Inl (LibError ''Expecting value''))"
  have p: "prepare (ex_env (Inr ?resp)) ex_base (JObj (ex_test_case []))
       (ex_operation [JStr ''application/json''])
     = Inr (ex_vars [(''Content-Type'', JStr ''application/json'')], JObj (ex_test_case []))"
    by (simp add: ex_prepare_absent)
  have c: "make_call (ex_vars [(''Content-Type'', JStr ''application/json'')])
     = Inr (ex_call [(''Content-Type'', JStr ''application/json'')] JsonArg)"
    by (simp add: ex_make_call)
  have r: "requests_request (ex_env (Inr ?resp))
             (ex_call [(''Content-Type'', JStr ''application/json'')] JsonArg) = Inr ?resp"
    by (simp add: ex_env_request)
  have "attempt (ex_env (Inr ?resp)) (JObj (ex_test_case []))
          (ex_vars [(''Content-Type'', JStr ''application/json'')])
        = Inl (LibError ''Expecting value'')"
    by (rule attempt_json_error [OF c r]) (simp_all add: ex_response_def)
  from run_failure [OF p this ex_test_name] show ?thesis
    by (simp add: failure_result_def ex_env_str ex_expected ex_response_def
        del: py_getitem.simps)
qed

text \<open>
  Claim C1, amended. For every test case with an expected status and every response
  obtained whose body is empty or parses as JSON, \<open>passed\<close> is the outcome of
  \<open>actual_status == expected_status\<close>; neither the expected nor the actual body enters
  it.
\<close>

theorem passed_is_status_equality:
  assumes "prepare E base tc op = Inr (vars, tc')" and "make_call vars = Inr call"
    and "requests_request E call = Inr resp"
    and "resp_text resp = [] \<or> resp_json resp = Inr b"
    and "py_getitem tc ''expected_response'' = Inr er"
    and "py_getitem er ''status_code'' = Inr es"
    and "py_getitem tc ''test_name'' = Inr name"
  shows "\<exists>r. run_test_case E base tc op = Inr (r, tc') \<and>
           map_of r ''passed'' = Some (JBool (py_int_eq (status_code resp) es)) \<and>
           map_of r ''expected_status'' = Some es \<and>
           map_of r ''actual_status'' = Some (JInt (status_code resp)) \<and>
           map_of r ''error'' = None"
proof -
  from prepare_keeps [OF assms(1)] assms(5,7)
  have k: "py_getitem tc' ''expected_response'' = Inr er" "py_getitem tc' ''test_name'' = Inr name"
    by simp_all
  from assms(4) have
    "\<exists>ab. (if resp_text resp \<noteq> [] then resp_json resp else Inr JNull) = Inr ab"
    by (cases "resp_text resp = []") auto
  then obtain ab where
    "(if resp_text resp \<noteq> [] then resp_json resp else Inr JNull) = Inr ab" ..
  from attempt_ok [OF assms(2,3) this k(1) assms(6) k(2)]
  show ?thesis by (auto simp: run_test_case_eq [OF assms(1)])
qed

theorem passed_is_status_equality_witness:
  "\<exists>r. run_test_case (ex_env (Inr (ex_response 200 ''[1]'' (Inr (JArr [JInt 1])))))
          ex_base (JObj (ex_test_case [])) (ex_operation [JStr ''application/json''])
        = Inr (r, JObj (ex_test_case [])) \<and>
        map_of r ''passed'' = Some (JBool True) \<and>
        map_of r ''expected_status'' = Some (JInt 200) \<and>
        map_of r ''actual_status'' = Some (JInt 200) \<and>
        map_of r ''error'' = None"
proof -
  let ?resp = "ex_response 200 ''[1]'' (Inr (JArr [JInt 1]))"
  have p: "prepare (ex_env (Inr ?resp)) ex_base (JObj (ex_test_case []))
       (ex_operation [JStr ''application/json''])
     = Inr (ex_vars [(''Content-Type'', JStr ''application/json'')], JObj (ex_test_case []))"
    by (simp add: ex_prepare_absent)
  have c: "make_call (ex_vars [(''Content-Type'', JStr ''application/json'')])
     = Inr (ex_call [(''Content-Type'', JStr ''application/json'')] JsonArg)"
    by (simp add: ex_make_call)
  have r: "requests_request (ex_env (Inr ?resp))
             (ex_call [(''Content-Type'', JStr ''application/json'')] JsonArg) = Inr ?resp"
    by (simp add: ex_env_request)
  have b: "resp_text ?resp = [] \<or> resp_json ?resp = Inr (JArr [JInt 1])"
    by (simp add: ex_response_def)
  from passed_is_status_equality [OF p c r b ex_expected ex_test_name]
  show ?thesis by (simp add: ex_response_def)
qed

section \<open>Properties of \<open>main\<close>\<close>

text \<open>The second loop gives one result for each pair it is run on, in order, and it returns
  whenever every single run returns.\<close>

lemma run_loop_ok:
  "run_loop E base ps = Inr rs \<Longrightarrow>
   list_all2 (\<lambda>r p. \<exists>tc'. run_test_case E base (fst p) (snd p) = Inr (r, tc')) rs ps"
proof (induction ps arbitrary: rs)
  case Nil
  then show ?case by simp
next
  case (Cons p ps)
  obtain tc op where p: "p = (tc, op)" by (cases p)
  from Cons.prems p obtain r tc' rs' where
    "run_test_case E base tc op = Inr (r, tc')" "run_loop E base ps = Inr rs'" "rs = r # rs'"
    by (auto simp: bnd_Inr_iff)
  with Cons.IH p show ?case by auto
qed

lemma run_loop_total:
  "(\<forall>p \<in> set ps. \<exists>r tc'. run_test_case E base (fst p) (snd p) = Inr (r, tc')) \<Longrightarrow>
   \<exists>rs. run_loop E base ps = Inr rs"
proof (induction ps)
  case Nil
  then show ?case by simp
next
  case (Cons p ps)
  obtain tc op where p: "p = (tc, op)" by (cases p)
  from Cons obtain rs where "run_loop E base ps = Inr rs" by auto
  moreover from Cons.prems p obtain r tc' where "run_test_case E base tc op = Inr (r, tc')"
    by auto
  ultimately show ?case using p by simp
qed

subsection \<open>The example run, evaluated\<close>

lemma ex_generate_loop:
  "generate_loop ex_main_env (ex_descriptors (JArr [JStr ''application/xml''])) =
     Inr [ex_case ''list 1'', ex_case ''list 2'', ex_case ''other'', ex_case ''other'']"
  by (simp add: ex_descriptors_def ex_main_env_def ex_generate_def)

lemma ex_run:
  "run_test_case ex_main_env ex_base (ex_case name)
     (JObj [(''path'', JStr p), (''method'', JStr m), (''operation_id'', oid),
            (''parameters'', JArr []), (''requestBody'', JObj []), (''responses'', JObj []),
            (''consumes'', JArr [JStr ct])]) =
   Inr (ex_result name (if ct = ''application/xml'' then 200 else 415), ex_case name)"
  by (simp add: run_test_case_def prepare_def ex_case_def Let_def attempt_def make_call_def
      ex_main_env_def ex_server_def ex_response_def ex_result_def)

subsection \<open>Pairing of test cases and operations\<close>

text \<open>
  When every operation yields exactly one test case, the run executes each test case
  against the operation that produced it, and returns one result for each, in order.
\<close>

lemma generate_loop_one_each:
  assumes "\<forall>operation \<in> set ops. \<exists>t. generate_test_case E operation = Inr (JArr [t])"
  shows "\<exists>tcs. generate_loop E ops = Inr tcs \<and> length tcs = length ops \<and>
           (\<forall>i < length ops. generate_test_case E (ops ! i) = Inr (JArr [tcs ! i]))"
  using assms
proof (induction ops)
  case Nil
  then show ?case by simp
next
  case (Cons operation ops)
  from Cons.prems obtain t where t: "generate_test_case E operation = Inr (JArr [t])"
    by auto
  from Cons obtain tcs where tcs: "generate_loop E ops = Inr tcs" "length tcs = length ops"
    "\<forall>i < length ops. generate_test_case E (ops ! i) = Inr (JArr [tcs ! i])"
    by auto
  have "\<forall>i < length (operation # ops).
          generate_test_case E ((operation # ops) ! i) = Inr (JArr [(t # tcs) ! i])"
    using t tcs(3) by (auto simp: nth_Cons split: nat.splits)
  with t tcs(1,2) show ?case by simp
qed

lemma main_one_case_each:
  assumes "analyze_spec spec = Inr ops"
    and "\<forall>operation \<in> set ops. \<exists>t. generate_test_case E operation = Inr (JArr [t])"
    and "\<forall>operation \<in> set ops. \<forall>t. generate_test_case E operation = Inr (JArr [t]) \<longrightarrow>
           (\<exists>r tc'. run_test_case E base t operation = Inr (r, tc'))"
  shows "\<exists>tcs rs. main E spec base = Inr (tcs, rs) \<and>
           length tcs = length ops \<and> length rs = length ops \<and>
           (\<forall>i < length ops.
              generate_test_case E (ops ! i) = Inr (JArr [tcs ! i]) \<and>
              (\<exists>tc'. run_test_case E base (tcs ! i) (ops ! i) = Inr (rs ! i, tc')))"
proof -
  from generate_loop_one_each [OF assms(2)] obtain tcs where
    tcs: "generate_loop E ops = Inr tcs" "length tcs = length ops"
      "\<forall>i < length ops. generate_test_case E (ops ! i) = Inr (JArr [tcs ! i])"
    by blast
  have "\<forall>p \<in> set (zip tcs ops). \<exists>r tc'. run_test_case E base (fst p) (snd p) = Inr (r, tc')"
  proof
    fix p assume "p \<in> set (zip tcs ops)"
    then obtain i where i: "i < length ops" "p = (tcs ! i, ops ! i)"
      using tcs(2) by (auto simp: in_set_conv_nth)
    with tcs(3) assms(3) show "\<exists>r tc'. run_test_case E base (fst p) (snd p) = Inr (r, tc')"
      by simp
  qed
  from run_loop_total [OF this] obtain rs where rs: "run_loop E base (zip tcs ops) = Inr rs"
    by blast
  from run_loop_ok [OF rs] tcs(2)
  have "length rs = length ops"
    and "\<forall>i < length ops. \<exists>tc'. run_test_case E base (tcs ! i) (ops ! i) = Inr (rs ! i, tc')"
    by (auto simp: list_all2_conv_all_nth)
  moreover from assms(1) tcs(1) rs have "main E spec base = Inr (tcs, rs)"
    by (simp add: main_def)
  ultimately show ?thesis using tcs(2,3) by blast
qed

text \<open>
  Claim C8 says that every generated test case is executed against the operation that
  produced it, and that a result is produced for each, in generation order. The run does
  not do this when an operation yields more than one test case. In the example the first
  operation yields two test cases and the other two one each: the aggregated list has four
  test cases for three descriptors, and \<open>main\<close> returns three results. The second test
  case, which the first operation produced, is executed against the second descriptor and
  fails with status 415, while against its own operation it passes; the third test case,
  which the second operation produced, is executed against the third descriptor; the
  fourth test case is not executed at all.
\<close>

theorem main_misaligns_test_cases:
  "main ex_main_env (JObj ex_doc) ex_base =
     Inr ([ex_case ''list 1'', ex_case ''list 2'', ex_case ''other'', ex_case ''other''],
          [ex_result ''list 1'' 200, ex_result ''list 2'' 415, ex_result ''other'' 200]) \<and>
   generate_test_case ex_main_env (ex_descriptors (JArr [JStr ''application/xml'']) ! 0) =
     Inr (JArr [ex_case ''list 1'', ex_case ''list 2'']) \<and>
   run_test_case ex_main_env ex_base (ex_case ''list 2'')
       (ex_descriptors (JArr [JStr ''application/xml'']) ! 0) =
     Inr (ex_result ''list 2'' 200, ex_case ''list 2'') \<and>
   run_test_case ex_main_env ex_base (ex_case ''list 2'')
       (ex_descriptors (JArr [JStr ''application/xml'']) ! 1) =
     Inr (ex_result ''list 2'' 415, ex_case ''list 2'') \<and>
   ex_result ''list 2'' 200 \<noteq> ex_result ''list 2'' 415"
proof -
  have "main ex_main_env (JObj ex_doc) ex_base =
     Inr ([ex_case ''list 1'', ex_case ''list 2'', ex_case ''other'', ex_case ''other''],
          [ex_result ''list 1'' 200, ex_result ''list 2'' 415, ex_result ''other'' 200])"
    by (simp add: main_def ex_analyze ex_generate_loop) (simp add: ex_descriptors_def ex_run)
  moreover
  have "generate_test_case ex_main_env (ex_descriptors (JArr [JStr ''application/xml'']) ! 0) =
     Inr (JArr [ex_case ''list 1'', ex_case ''list 2''])"
    by (simp add: ex_descriptors_def ex_main_env_def ex_generate_def)
  moreover
  have "run_test_case ex_main_env ex_base (ex_case ''list 2'')
       (ex_descriptors (JArr [JStr ''application/xml'']) ! 0) =
     Inr (ex_result ''list 2'' 200, ex_case ''list 2'')"
    by (simp add: ex_descriptors_def ex_run)
  moreover
  have "run_test_case ex_main_env ex_base (ex_case ''list 2'')
       (ex_descriptors (JArr [JStr ''application/xml'']) ! 1) =
     Inr (ex_result ''list 2'' 415, ex_case ''list 2'')"
    by (simp add: ex_descriptors_def ex_run)
  moreover
  have "ex_result ''list 2'' 200 \<noteq> ex_result ''list 2'' 415"
    by (simp add: ex_result_def)
  ultimately show ?thesis by simp
qed

end
